theory Spec2Isabelle
  imports Main "HOL-Library.Sublist"
begin

section \<open>Python values, errors and string primitives\<close>

text \<open>
  The collector of \<^verbatim>\<open>sos/collector/__init__.py\<close> is modelled function by function.
  A Python \<^verbatim>\<open>str\<close> is a \<^typ>\<open>string\<close> (code points below 256). Every raise and every
  call of \<^verbatim>\<open>_exit\<close> (which ends in \<^verbatim>\<open>sys.exit(error)\<close>) is a value of \<open>error\<close>
  on the left of a sum.
\<close>

datatype error =
    IndexError
  | TypeError
  | AttributeError
  | NameError
  | SysExit nat

datatype pytype = TStr | TBool | TInt

datatype pyval = PyStr string | PyBool bool | PyInt int

text \<open>\<^verbatim>\<open>xs[i]\<close> for a non-negative index: out of range raises IndexError.\<close>

definition index :: "'a list \<Rightarrow> nat \<Rightarrow> error + 'a" where
  "index xs i = (if i < length xs then Inr (xs ! i) else Inl IndexError)"

text \<open>
  \<^verbatim>\<open>s.split(sep)\<close> for a one-character separator is \<open>split_where (\<lambda>x. x = sep) s\<close>:
  every occurrence splits, empty pieces are kept, and the result is never empty.
\<close>

fun split_where :: "(char \<Rightarrow> bool) \<Rightarrow> string \<Rightarrow> string list" where
  "split_where P [] = [[]]"
| "split_where P (x # xs) =
     (if P x then [] # split_where P xs
      else (case split_where P xs of
              [] \<Rightarrow> [[x]]
            | w # ws \<Rightarrow> (x # w) # ws))"

definition split_on :: "char \<Rightarrow> string \<Rightarrow> string list" where
  "split_on c s = split_where (\<lambda>x. x = c) s"

text \<open>\<^verbatim>\<open>str.isspace\<close> on one code point below 256.\<close>

definition isspace :: "char \<Rightarrow> bool" where
  "isspace c =
     (let n = (of_char c :: nat)
      in (9 \<le> n \<and> n \<le> 13) \<or> (28 \<le> n \<and> n \<le> 32) \<or> n = 133 \<or> n = 160)"

text \<open>\<^verbatim>\<open>s.split()\<close>: split at runs of whitespace, no empty pieces.\<close>

definition split_ws :: "string \<Rightarrow> string list" where
  "split_ws s = filter (\<lambda>w. w \<noteq> []) (split_where isspace s)"

text \<open>\<^verbatim>\<open>s.lower()\<close> on code points below 256.\<close>

definition lower_char :: "char \<Rightarrow> char" where
  "lower_char c =
     (let n = (of_char c :: nat)
      in if (65 \<le> n \<and> n \<le> 90) \<or> (192 \<le> n \<and> n \<le> 222 \<and> n \<noteq> 215)
         then char_of (n + 32) else c)"

definition lower :: "string \<Rightarrow> string" where
  "lower s = map lower_char s"

text \<open>\<^verbatim>\<open>s.lstrip(',')\<close>: drop every leading comma.\<close>

definition lstrip :: "char \<Rightarrow> string \<Rightarrow> string" where
  "lstrip c s = dropWhile (\<lambda>x. x = c) s"

text \<open>Python truthiness of a string option value: \<^verbatim>\<open>None\<close>, \<^verbatim>\<open>False\<close> and \<^verbatim>\<open>''\<close>
  are all represented by the empty string.\<close>

definition truthy :: "string \<Rightarrow> bool" where
  "truthy s = (s \<noteq> [])"

section \<open>Cluster options\<close>

text \<open>
  Modelled from the spec: the class \<^verbatim>\<open>ClusterOption\<close> is declared in \<^verbatim>\<open>sos.options\<close>, outside
  the given sources. The unit tests import it from there and build it with the keywords
  \<^verbatim>\<open>name\<close>, \<^verbatim>\<open>opt_type\<close>, \<^verbatim>\<open>value\<close> and \<^verbatim>\<open>cluster\<close>; the collector reads these four
  attributes. The field \<open>val\<close> is the attribute \<^verbatim>\<open>value\<close>.
\<close>

record cluster_option =
  name :: string
  val :: pyval
  opt_type :: pytype
  cluster :: string

text \<open>
  The body of the loop of \<^verbatim>\<open>parse_cluster_options\<close> for one \<^verbatim>\<open>-c\<close> argument
  (\<^verbatim>\<open>self.opts.cluster_options\<close> is a list: the option is declared with \<^verbatim>\<open>action='append'\<close>).
  First the three locals \<^verbatim>\<open>name\<close>, \<^verbatim>\<open>value\<close> and \<^verbatim>\<open>cluster\<close>: the two reads
  \<^verbatim>\<open>option.split('.')[1]\<close> are outside the \<^verbatim>\<open>try\<close>, the read of the value is inside it.
\<close>

definition cluster_option_args :: "string \<Rightarrow> error + string \<times> string \<times> string" where
  "cluster_option_args option =
     (case index (split_on CHR ''.'' option) 0 of
        Inl e \<Rightarrow> Inl e
      | Inr cl \<Rightarrow>
         (case index (split_on CHR ''.'' option) 1 of
            Inl e \<Rightarrow> Inl e
          | Inr rest \<Rightarrow>
             (case index (split_on CHR ''='' rest) 0 of
                Inl e \<Rightarrow> Inl e
              | Inr nm \<Rightarrow>
                 (let v = (case index (split_on CHR ''='' option) 1 of
                             Inl e \<Rightarrow> ''True''
                           | Inr rhs \<Rightarrow>
                               (case index (split_ws rhs) 0 of
                                  Inl e \<Rightarrow> ''True''
                                | Inr w \<Rightarrow> w))
                  in Inr (nm, v, cl)))))"

text \<open>
  Then \<^verbatim>\<open>opts.append(ClusterOption(name, value, value.__class__, cluster))\<close>. The module
  imports \<^verbatim>\<open>SosNode\<close>, \<^verbatim>\<open>ControlPersistUnsupportedException\<close>, \<^verbatim>\<open>SoSComponent\<close> and
  \<^verbatim>\<open>__version__\<close> and never binds the name \<^verbatim>\<open>ClusterOption\<close>: the call raises
  \<^verbatim>\<open>NameError\<close>, after the locals were computed and outside the \<^verbatim>\<open>try\<close>.
\<close>

definition parse_cluster_option :: "string \<Rightarrow> error + cluster_option" where
  "parse_cluster_option option =
     (case cluster_option_args option of
        Inl e \<Rightarrow> Inl e
      | Inr args \<Rightarrow> Inl NameError)"

fun parse_cluster_options :: "string list \<Rightarrow> error + cluster_option list" where
  "parse_cluster_options [] = Inr []"
| "parse_cluster_options (option # rest) =
     (case parse_cluster_option option of
        Inl e \<Rightarrow> Inl e
      | Inr opt \<Rightarrow>
         (case parse_cluster_options rest of
            Inl e \<Rightarrow> Inl e
          | Inr opts \<Rightarrow> Inr (opt # opts)))"


text \<open>A loaded cluster profile, as far as the collector reads it: its class, the result
  of \<^verbatim>\<open>check_enabled()\<close> against the primary node, and its declared options.\<close>

record 'c profile =
  cls :: 'c
  enabled :: bool
  options :: "cluster_option list"

text \<open>\<^verbatim>\<open>verify_cluster_options\<close>: the inner loop with its \<^verbatim>\<open>break\<close>, the loop over the
  profiles, the loop over the user's options (each iteration resets \<^verbatim>\<open>match\<close>), and
  the test of \<^verbatim>\<open>match\<close> placed after the outer loop.\<close>

fun scan_options :: "string \<Rightarrow> bool \<Rightarrow> cluster_option list \<Rightarrow> bool" where
  "scan_options n m [] = m"
| "scan_options n m (option # rest) =
     (if n = name option then True else scan_options n m rest)"

fun scan_clusters :: "string \<Rightarrow> bool \<Rightarrow> (string \<times> 'c profile) list \<Rightarrow> bool" where
  "scan_clusters n m [] = m"
| "scan_clusters n m (clust # rest) =
     scan_clusters n (scan_options n m (options (snd clust))) rest"

fun scan_cluster_options ::
  "(string \<times> 'c profile) list \<Rightarrow> bool \<Rightarrow> cluster_option list \<Rightarrow> bool" where
  "scan_cluster_options clusters m [] = m"
| "scan_cluster_options clusters m (opt # rest) =
     scan_cluster_options clusters (scan_clusters (name opt) False clusters) rest"

definition verify_cluster_options ::
  "(string \<times> 'c profile) list \<Rightarrow> cluster_option list \<Rightarrow> error + unit" where
  "verify_cluster_options clusters opts =
     (if opts = [] then Inr ()
      else if \<not> scan_cluster_options clusters False opts then Inl (SysExit 1)
      else Inr ())"




section \<open>The agent command line\<close>

text \<open>
  \<^verbatim>\<open>pipes.quote\<close> (that is \<^verbatim>\<open>shlex.quote\<close>): the empty string becomes two single quotes, a
  string of safe characters (ASCII letters, digits and \<^verbatim>\<open>_@%+=:,./-\<close>) is returned as it
  is, any other string is wrapped in single quotes with every single quote inside it
  replaced by \<^verbatim>\<open>'"'"'\<close>.
\<close>

definition safe_char :: "char \<Rightarrow> bool" where
  "safe_char c =
     (let n = (of_char c :: nat)
      in (48 \<le> n \<and> n \<le> 57) \<or> (65 \<le> n \<and> n \<le> 90) \<or> (97 \<le> n \<and> n \<le> 122)
         \<or> c \<in> set ''_@%+=:,./-'')"

fun replace_squote :: "string \<Rightarrow> string" where
  "replace_squote [] = []"
| "replace_squote (c # cs) =
     (if c = CHR 0x27 then [CHR 0x27, CHR 0x22, CHR 0x27, CHR 0x22, CHR 0x27] @ replace_squote cs
      else c # replace_squote cs)"

definition quote :: "string \<Rightarrow> string" where
  "quote s =
     (if s = [] then [CHR 0x27, CHR 0x27]
      else if list_all safe_char s then s
      else [CHR 0x27] @ replace_squote s @ [CHR 0x27])"

text \<open>
  What a POSIX shell reads back from one word, for stating what shell-quoting achieves.
  Outside quotes a single or double quote opens a quoted part and any other character
  with a meaning to the shell ends the reading (\<open>None\<close>); inside single quotes everything
  up to the next single quote is literal; inside double quotes everything up to the next
  double quote is literal except \<^verbatim>\<open>$\<close>, the backquote, the backslash and \<^verbatim>\<open>!\<close>. An
  unterminated quote gives \<open>None\<close>.
\<close>

datatype quoting = Unquoted | InSingle | InDouble

definition sh_special :: "char \<Rightarrow> bool" where
  "sh_special c =
     (c \<in> set [CHR 0x20, CHR 0x09, CHR 0x0A, CHR ''|'', CHR ''&'', CHR '';'', CHR ''<'',
                CHR ''>'', CHR ''('', CHR '')'', CHR ''$'', CHR 0x60, CHR 0x5C, CHR ''*'',
                CHR ''?'', CHR ''['', CHR '']'', CHR ''#'', CHR ''~'', CHR ''{'', CHR ''}'',
                CHR ''!''])"

fun sh_word :: "quoting \<Rightarrow> string \<Rightarrow> string option" where
  "sh_word Unquoted [] = Some []"
| "sh_word InSingle [] = None"
| "sh_word InDouble [] = None"
| "sh_word Unquoted (c # cs) =
     (if c = CHR 0x27 then sh_word InSingle cs
      else if c = CHR 0x22 then sh_word InDouble cs
      else if sh_special c then None
      else map_option ((#) c) (sh_word Unquoted cs))"
| "sh_word InSingle (c # cs) =
     (if c = CHR 0x27 then sh_word Unquoted cs
      else map_option ((#) c) (sh_word InSingle cs))"
| "sh_word InDouble (c # cs) =
     (if c = CHR 0x22 then sh_word Unquoted cs
      else if c \<in> set [CHR ''$'', CHR 0x60, CHR 0x5C, CHR ''!''] then None
      else map_option ((#) c) (sh_word InDouble cs))"

text \<open>The options \<^verbatim>\<open>configure_sos_cmd\<close> reads. \<^verbatim>\<open>log_size\<close> is an \<^verbatim>\<open>int\<close>
  (\<^verbatim>\<open>type=int\<close>, default 0); the other values are strings or flags.\<close>

record cmd_opts =
  sos_opt_line :: string
  case_id :: string
  alloptions :: bool
  all_logs :: bool
  verify :: bool
  log_size :: int
  sysroot :: string
  chroot :: string
  compression :: string

text \<open>What \<^verbatim>\<open>configure_sos_cmd\<close> leaves behind: \<^verbatim>\<open>self.sos_cmd\<close>, the possibly cleared
  \<^verbatim>\<open>self.opts.sos_opt_line\<close>, the warnings logged, and how the call ended: \<open>Inr True\<close> for
  \<^verbatim>\<open>return True\<close>, \<open>Inr False\<close> for falling off the end (\<^verbatim>\<open>None\<close>), \<open>Inl e\<close> for a raise.\<close>

record cmd_result =
  outcome :: "error + bool"
  sos_cmd :: string
  opt_line_after :: string
  warnings :: "string list"

definition shell_warning :: string where
  "shell_warning =
     ''Possible shell script found in provided sos command. Ignoring --sos-opt-line entirely.''"

text \<open>The per-flag path, from \<^verbatim>\<open>if self.opts.case_id\<close> on. \<^verbatim>\<open>quote(self.opts.log_size)\<close>
  is applied to an \<^verbatim>\<open>int\<close> and raises \<^verbatim>\<open>TypeError\<close>; the flags appended before it stay in
  \<^verbatim>\<open>self.sos_cmd\<close>.\<close>

definition flag_path :: "cmd_opts \<Rightarrow> string \<Rightarrow> (error + bool) \<times> string" where
  "flag_path opts cmd0 =
     (let c1 = (if truthy (case_id opts) then cmd0 @ '' --case-id='' @ quote (case_id opts)
                else cmd0);
          c2 = (if alloptions opts then c1 @ '' --alloptions'' else c1);
          c3 = (if all_logs opts then c2 @ '' --all-logs'' else c2);
          c4 = (if verify opts then c3 @ '' --verify'' else c3)
      in if log_size opts \<noteq> 0 then (Inl TypeError, c4)
         else
           (let c5 = (if truthy (sysroot opts) then c4 @ '' -s '' @ quote (sysroot opts) else c4);
                c6 = (if truthy (chroot opts) then c5 @ '' -c '' @ quote (chroot opts) else c5);
                c7 = (if truthy (compression opts) then c6 @ '' -z '' @ quote (compression opts)
                      else c6)
            in (Inr False, c7)))"

definition configure_sos_cmd :: "cmd_opts \<Rightarrow> cmd_result" where
  "configure_sos_cmd opts =
     (let cmd0 = ''sosreport --batch'';
          filt = ''&|><;''
      in if truthy (sos_opt_line opts) then
           (if list_ex (\<lambda>f. f \<in> set (sos_opt_line opts)) filt then
              (let (out, cmd) = flag_path opts cmd0
               in \<lparr>outcome = out, sos_cmd = cmd, opt_line_after = [],
                   warnings = [shell_warning]\<rparr>)
            else
              \<lparr>outcome = Inr True, sos_cmd = cmd0 @ '' '' @ quote (sos_opt_line opts),
                opt_line_after = sos_opt_line opts, warnings = []\<rparr>)
         else
           (let (out, cmd) = flag_path opts cmd0
            in \<lparr>outcome = out, sos_cmd = cmd, opt_line_after = sos_opt_line opts,
                warnings = []\<rparr>))"

section \<open>The archive: name, path and assembly\<close>

text \<open>
  What \<^verbatim>\<open>_get_archive_name\<close> reads from outside: the options \<^verbatim>\<open>label\<close> and \<^verbatim>\<open>case_id\<close>
  (empty when unset), today's date from \<^verbatim>\<open>datetime.now()\<close>, and the random generator.
  \<^verbatim>\<open>random.choice(seq)\<close> is \<^verbatim>\<open>seq[_randbelow(len(seq))]\<close>: \<open>rng k\<close> is the raw value of the
  \<open>k\<close>-th draw, reduced below \<^verbatim>\<open>len(seq)\<close>.
\<close>

record archive_env =
  tmpdir :: string
  label :: string
  case_number :: string
  year :: nat
  month :: nat
  day :: nat
  rng :: "nat \<Rightarrow> nat"
  sos_log_file :: string
  sos_ui_log_file :: string
  open_ok :: "string \<Rightarrow> bool"
  add_ok :: "string \<Rightarrow> bool"

text \<open>In \<open>archive_env\<close>, \<open>open_ok p\<close> says whether \<^verbatim>\<open>tarfile.open(p, "w:gz")\<close> succeeds and
  \<open>add_ok p\<close> whether \<^verbatim>\<open>tar.add(p, ...)\<close> succeeds; both raise otherwise.\<close>

definition ascii_lowercase :: string where
  "ascii_lowercase = ''abcdefghijklmnopqrstuvwxyz''"

definition digit_char :: "nat \<Rightarrow> char" where
  "digit_char n = ''0123456789'' ! (n mod 10)"

text \<open>\<^verbatim>\<open>strftime('%Y-%m-%d')\<close>: \<^verbatim>\<open>%m\<close> and \<^verbatim>\<open>%d\<close> are two digits; \<^verbatim>\<open>%Y\<close> is the year in
  decimal, four digits for the years 1000 to 9999 (the model is not meant for others).\<close>

definition dec2 :: "nat \<Rightarrow> string" where
  "dec2 n = [digit_char (n div 10), digit_char n]"

definition dec4 :: "nat \<Rightarrow> string" where
  "dec4 n = [digit_char (n div 1000), digit_char (n div 100), digit_char (n div 10), digit_char n]"

definition strftime_ymd :: "nat \<Rightarrow> nat \<Rightarrow> nat \<Rightarrow> string" where
  "strftime_ymd y m d = dec4 y @ ''-'' @ dec2 m @ ''-'' @ dec2 d"

definition random_choice :: "string \<Rightarrow> nat \<Rightarrow> char" where
  "random_choice seq r = seq ! (r mod length seq)"

definition get_archive_name :: "archive_env \<Rightarrow> string" where
  "get_archive_name env =
     (let nstr0 = ''sos-collector'';
          nstr1 = (if truthy (label env) then nstr0 @ ''-'' @ label env else nstr0);
          nstr2 = (if truthy (case_number env) then nstr1 @ ''-'' @ case_number env else nstr1);
          dt = strftime_ymd (year env) (month env) (day env);
          rand = map (\<lambda>x. random_choice ascii_lowercase (rng env x)) [0..<5]
      in nstr2 @ ''-'' @ dt @ ''-'' @ rand)"

definition get_archive_path :: "archive_env \<Rightarrow> string" where
  "get_archive_path env =
     (let arc_name = get_archive_name env;
          compr = ''gz''
      in tmpdir env @ arc_name @ ''.tar.'' @ compr)"









subsection \<open>Regular expressions, for the pattern of the archive name\<close>

text \<open>A regular expression over character classes, matched by derivatives; the pattern
  is anchored at both ends, as with \<^verbatim>\<open>^\<close> and \<^verbatim>\<open>$\<close>.\<close>

datatype rexp =
    Nothing
  | Empty
  | Class "char list"
  | Seq rexp rexp
  | Alt rexp rexp
  | Star rexp

fun nullable :: "rexp \<Rightarrow> bool" where
  "nullable Nothing = False"
| "nullable Empty = True"
| "nullable (Class cs) = False"
| "nullable (Seq r s) = (nullable r \<and> nullable s)"
| "nullable (Alt r s) = (nullable r \<or> nullable s)"
| "nullable (Star r) = True"

fun deriv :: "char \<Rightarrow> rexp \<Rightarrow> rexp" where
  "deriv c Nothing = Nothing"
| "deriv c Empty = Nothing"
| "deriv c (Class cs) = (if c \<in> set cs then Empty else Nothing)"
| "deriv c (Seq r s) =
     (if nullable r then Alt (Seq (deriv c r) s) (deriv c s) else Seq (deriv c r) s)"
| "deriv c (Alt r s) = Alt (deriv c r) (deriv c s)"
| "deriv c (Star r) = Seq (deriv c r) (Star r)"

fun matches :: "rexp \<Rightarrow> string \<Rightarrow> bool" where
  "matches r [] = nullable r"
| "matches r (c # cs) = matches (deriv c r) cs"

fun lit :: "string \<Rightarrow> rexp" where
  "lit [] = Empty"
| "lit (c # cs) = Seq (Class [c]) (lit cs)"

definition ropt :: "rexp \<Rightarrow> rexp" where
  "ropt r = Alt Empty r"

definition rplus :: "rexp \<Rightarrow> rexp" where
  "rplus r = Seq r (Star r)"

fun rtimes :: "nat \<Rightarrow> rexp \<Rightarrow> rexp" where
  "rtimes 0 r = Empty"
| "rtimes (Suc n) r = Seq r (rtimes n r)"

definition word_chars :: string where
  "word_chars = ''ABCDEFGHIJKLMNOPQRSTUVWXYZabcdefghijklmnopqrstuvwxyz0123456789_-''"

definition digits :: string where
  "digits = ''0123456789''"

text \<open>\<^verbatim>\<open>^sos-collector(-[A-Za-z0-9_-]+)?(-[A-Za-z0-9_-]+)?-\d{4}-\d{2}-\d{2}-[a-z]{5}$\<close>\<close>

definition archive_name_re :: rexp where
  "archive_name_re =
     Seq (lit ''sos-collector'')
    (Seq (ropt (Seq (lit ''-'') (rplus (Class word_chars))))
    (Seq (ropt (Seq (lit ''-'') (rplus (Class word_chars))))
    (Seq (lit ''-'') (Seq (rtimes 4 (Class digits))
    (Seq (lit ''-'') (Seq (rtimes 2 (Class digits))
    (Seq (lit ''-'') (Seq (rtimes 2 (Class digits))
    (Seq (lit ''-'') (rtimes 5 (Class ascii_lowercase)))))))))))"

section \<open>Node strings, cluster detection and the node list\<close>

subsection \<open>\<^verbatim>\<open>parse_node_strings\<close>\<close>

text \<open>
  \<open>rc reg\<close> stands for: \<^verbatim>\<open>re.compile(re.escape(reg))\<close> returns, that is does not raise
  \<^verbatim>\<open>re.error\<close>. \<open>slice node start idx\<close> is \<^verbatim>\<open>node[start:idx]\<close> for indices within the string.
\<close>

definition slice :: "string \<Rightarrow> nat \<Rightarrow> nat \<Rightarrow> string" where
  "slice s i j = take (j - i) (drop i s)"

text \<open>\<^verbatim>\<open>[i for i, m in enumerate(node) if m == ','] + [len(node)]\<close>\<close>

definition comma_idxs :: "string \<Rightarrow> nat list" where
  "comma_idxs node =
     map fst (filter (\<lambda>(i, m). m = CHR '','') (enumerate 0 node)) @ [length node]"

text \<open>The test that guards the split: \<^verbatim>\<open>'[' in reg and ']' not in reg\<close>.\<close>

definition open_class :: "string \<Rightarrow> bool" where
  "open_class reg = (CHR ''['' \<in> set reg \<and> CHR '']'' \<notin> set reg)"

text \<open>The loop \<^verbatim>\<open>for idx in idxs\<close> on the state \<^verbatim>\<open>(start, pos, nodes)\<close>: both the
  \<^verbatim>\<open>continue\<close> of the class test and the one of the \<^verbatim>\<open>except re.error\<close> leave \<^verbatim>\<open>start\<close>
  and \<^verbatim>\<open>nodes\<close> as they are, after \<^verbatim>\<open>pos = idx\<close>.\<close>

fun scan_idxs ::
  "(string \<Rightarrow> bool) \<Rightarrow> string \<Rightarrow> nat list \<Rightarrow> nat \<times> nat \<times> string list
     \<Rightarrow> nat \<times> nat \<times> string list" where
  "scan_idxs rc node [] st = st"
| "scan_idxs rc node (idx # rest) (start, pos, nodes) =
     (let reg = slice node start idx
      in if \<not> rc reg then scan_idxs rc node rest (start, idx, nodes)
         else if open_class reg then scan_idxs rc node rest (start, idx, nodes)
         else scan_idxs rc node rest (idx, idx, nodes @ [lstrip CHR '','' reg]))"

text \<open>The body of \<^verbatim>\<open>for node in self.opts.nodes\<close>, on the list \<^verbatim>\<open>nodes\<close> collected so far;
  \<^verbatim>\<open>self.opts.nodes\<close> is a list of raw strings, one for each \<^verbatim>\<open>--nodes\<close> given.\<close>

definition parse_node_string :: "(string \<Rightarrow> bool) \<Rightarrow> string list \<Rightarrow> string \<Rightarrow> string list" where
  "parse_node_string rc nodes node =
     (case scan_idxs rc node (comma_idxs node) (0, 0, nodes) of
        (start, pos, nodes') \<Rightarrow>
          if pos \<noteq> length node then nodes' @ [drop (pos + 1) node] else nodes')"

definition parse_node_strings :: "(string \<Rightarrow> bool) \<Rightarrow> string list \<Rightarrow> string list" where
  "parse_node_strings rc opts_nodes =
     (if opts_nodes = [] then opts_nodes
      else foldl (parse_node_string rc) [] opts_nodes)"

text \<open>
  The tokenizer as the specification words it, for comparison: scanning the string, a
  comma is a separator only if the prefix up to that comma compiles and has no unbalanced
  bracket; any other comma stays in the token being read. A prefix is balanced when every
  \<^verbatim>\<open>[\<close> in it is closed by a later \<^verbatim>\<open>]\<close>.
\<close>

fun bracket_depth :: "nat \<Rightarrow> string \<Rightarrow> nat" where
  "bracket_depth d [] = d"
| "bracket_depth d (c # cs) =
     (if c = CHR ''['' then bracket_depth (Suc d) cs
      else if c = CHR '']'' then bracket_depth (d - 1) cs
      else bracket_depth d cs)"

definition spec_separator :: "(string \<Rightarrow> bool) \<Rightarrow> string \<Rightarrow> bool" where
  "spec_separator rc pre = (rc pre \<and> bracket_depth 0 pre = 0)"

fun spec_scan :: "(string \<Rightarrow> bool) \<Rightarrow> string \<Rightarrow> string \<Rightarrow> string \<Rightarrow> string list" where
  "spec_scan rc pre tok [] = [tok]"
| "spec_scan rc pre tok (c # cs) =
     (if c = CHR '','' \<and> spec_separator rc pre then tok # spec_scan rc (pre @ [c]) [] cs
      else spec_scan rc (pre @ [c]) (tok @ [c]) cs)"

definition spec_tokenize :: "(string \<Rightarrow> bool) \<Rightarrow> string \<Rightarrow> string list" where
  "spec_tokenize rc node = spec_scan rc [] [] node"

subsection \<open>The start of \<^verbatim>\<open>__init__\<close>\<close>

text \<open>
  The calls of \<^verbatim>\<open>__init__\<close> up to \<^verbatim>\<open>verify_cluster_options\<close>, for a run without
  \<^verbatim>\<open>--list-options\<close>: \<^verbatim>\<open>parse_node_strings\<close>, \<^verbatim>\<open>parse_cluster_options\<close>, then the loading of
  host types and cluster profiles (taken to succeed, \<open>clusters\<close> being what
  \<^verbatim>\<open>load_clusters\<close> returns), then \<^verbatim>\<open>verify_cluster_options\<close>. An exception leaves
  \<^verbatim>\<open>__init__\<close> as it is (\<^verbatim>\<open>except Exception: raise\<close>). The result is the pair of
  \<^verbatim>\<open>self.opts.nodes\<close> and \<^verbatim>\<open>self.opts.cluster_options\<close> with which \<^verbatim>\<open>prep\<close> starts.
\<close>

definition init_checks ::
  "(string \<Rightarrow> bool) \<Rightarrow> (string \<times> 'c profile) list \<Rightarrow> string list \<Rightarrow> string list
     \<Rightarrow> error + string list \<times> cluster_option list" where
  "init_checks rc clusters nodes cluster_options =
     (let nodes' = parse_node_strings rc nodes
      in case parse_cluster_options cluster_options of
           Inl e \<Rightarrow> Inl e
         | Inr opts \<Rightarrow>
            (case verify_cluster_options clusters opts of
               Inl e \<Rightarrow> Inl e
             | Inr u \<Rightarrow> Inr (nodes', opts)))"

subsection \<open>\<^verbatim>\<open>determine_cluster\<close>\<close>

text \<open>
  \<^verbatim>\<open>self.clusters\<close> is a dictionary from the profile's name to its instance, iterated in
  insertion order: a list of pairs with distinct names, the name standing for the identity
  of the instance. \<open>issub c b\<close> is \<^verbatim>\<open>issubclass(c, b)\<close>.

  The inner loop \<^verbatim>\<open>for remaining in checks\<close> with its \<^verbatim>\<open>break\<close>, returning the value of
  \<^verbatim>\<open>cluster\<close> after it:
\<close>

fun layered ::
  "('c \<Rightarrow> 'c \<Rightarrow> bool) \<Rightarrow> string \<times> 'c profile \<Rightarrow> (string \<times> 'c profile) list
     \<Rightarrow> string \<times> 'c profile" where
  "layered issub clust [] = clust"
| "layered issub clust (remaining # rest) =
     (if issub (cls (snd remaining)) (cls (snd clust)) then
        (if enabled (snd remaining) then remaining
         else layered issub clust rest)
      else layered issub clust rest)"

text \<open>The outer loop on the list \<^verbatim>\<open>checks\<close>; \<open>None\<close> is \<^verbatim>\<open>self.cluster = None\<close>.\<close>

fun determine_loop ::
  "('c \<Rightarrow> 'c \<Rightarrow> bool) \<Rightarrow> (string \<times> 'c profile) list \<Rightarrow> (string \<times> 'c profile) list
     \<Rightarrow> (string \<times> 'c profile) option" where
  "determine_loop issub [] checks = None"
| "determine_loop issub (clust # rest) checks =
     (let checks' = remove1 clust checks
      in if enabled (snd clust) then Some (layered issub clust checks')
         else determine_loop issub rest checks')"

definition determine_cluster ::
  "('c \<Rightarrow> 'c \<Rightarrow> bool) \<Rightarrow> (string \<times> 'c profile) list \<Rightarrow> (string \<times> 'c profile) option" where
  "determine_cluster issub clusters = determine_loop issub clusters clusters"

subsection \<open>\<^verbatim>\<open>reduce_node_list\<close>\<close>

text \<open>The state \<^verbatim>\<open>reduce_node_list\<close> reads: \<open>master_hostname\<close> is \<open>None\<close> while
  \<^verbatim>\<open>self.master\<close> is still \<^verbatim>\<open>False\<close>, and \<^verbatim>\<open>self.master.hostname\<close> otherwise.\<close>

record node_state =
  node_list :: "string list"
  hostname :: string
  ip_addrs :: "string list"
  no_local :: bool
  master_hostname :: "string option"
  opts_master :: string

text \<open>\<^verbatim>\<open>for i in self.ip_addrs: if i in self.node_list: self.node_list.remove(i)\<close>;
  \<^verbatim>\<open>list.remove\<close> deletes the first occurrence.\<close>

fun remove_addrs :: "string list \<Rightarrow> string list \<Rightarrow> string list" where
  "remove_addrs [] l = l"
| "remove_addrs (i # rest) l =
     (if i \<in> set l then remove_addrs rest (remove1 i l) else remove_addrs rest l)"

text \<open>
  \<^verbatim>\<open>for n in self.node_list: if ...: self.node_list.remove(n)\<close>. The list iterator keeps
  an index \<open>i\<close> into the list being changed: it stops when \<open>i\<close> reaches the current length,
  reads \<open>l ! i\<close> and moves on to \<open>i + 1\<close> whatever the body removed.
\<close>

function remove_master :: "string \<Rightarrow> string \<Rightarrow> nat \<Rightarrow> string list \<Rightarrow> string list" where
  "remove_master mh om i l =
     (if i < length l then
        (let n = l ! i
         in if n = mh \<or> n = om then remove_master mh om (Suc i) (remove1 n l)
            else remove_master mh om (Suc i) l)
      else l)"
  by pat_completeness auto
termination
  by (relation "measure (\<lambda>(mh, om, i, l). length l - i)") (auto simp: length_remove1)

text \<open>\<^verbatim>\<open>list(set(n for n in self.node_list if n))\<close>: Python leaves the order of the result
  open; the model keeps the order of first occurrence.\<close>

definition reduce_node_list :: "node_state \<Rightarrow> string list" where
  "reduce_node_list st =
     (let l1 = (if hostname st \<in> set (node_list st) \<and> no_local st
                then remove1 (hostname st) (node_list st) else node_list st);
          l2 = remove_addrs (ip_addrs st) l1;
          l3 = (case master_hostname st of
                  None \<Rightarrow> l2
                | Some mh \<Rightarrow> remove_master mh (opts_master st) 0 l2)
      in remdups (filter (\<lambda>n. n \<noteq> []) l3))"

subsection \<open>Concrete inputs used below\<close>

text \<open>Three profiles in load order, each class derived from the one before, all matching
  the primary node; classes are numbered, \<open>chain_issub c b\<close> says that class \<open>c\<close> is
  class \<open>b\<close> or derives from it.\<close>

definition chain_issub :: "nat \<Rightarrow> nat \<Rightarrow> bool" where
  "chain_issub c b = (b \<le> c)"

definition chain_clusters :: "(string \<times> nat profile) list" where
  "chain_clusters =
     [(''base'', \<lparr>cls = 0, enabled = True, options = []\<rparr>),
      (''layer1'', \<lparr>cls = 1, enabled = True, options = []\<rparr>),
      (''layer2'', \<lparr>cls = 2, enabled = True, options = []\<rparr>)]"

subsection \<open>A one-pass reading of the tokenizer\<close>

text \<open>
  Used in the proofs about \<open>parse_node_string\<close>, to which it is shown equal: the string is
  read character by character, \<open>seg\<close> being \<^verbatim>\<open>node[start:i]\<close> at the current position \<open>i\<close>.
  At a comma and at the end of the string, \<open>seg\<close> is the \<^verbatim>\<open>reg\<close> of the loop.
\<close>

fun tokens_from :: "(string \<Rightarrow> bool) \<Rightarrow> string \<Rightarrow> string \<Rightarrow> string list" where
  "tokens_from rc seg [] =
     (if rc seg \<and> \<not> open_class seg then [lstrip CHR '','' seg] else [])"
| "tokens_from rc seg (c # cs) =
     (if c = CHR '','' then
        (if rc seg \<and> \<not> open_class seg then lstrip CHR '','' seg # tokens_from rc [c] cs
         else tokens_from rc (seg @ [c]) cs)
      else tokens_from rc (seg @ [c]) cs)"

section \<open>Properties of the cluster options\<close>

lemma split_where_first:
  "split_where P s =
     takeWhile (\<lambda>x. \<not> P x) s #
       (case dropWhile (\<lambda>x. \<not> P x) s of [] \<Rightarrow> [] | _ # r \<Rightarrow> split_where P r)"
  by (induction s) (auto split: list.splits)

lemma split_on_first:
  "split_on c s =
     takeWhile (\<lambda>x. x \<noteq> c) s #
       (case dropWhile (\<lambda>x. x \<noteq> c) s of [] \<Rightarrow> [] | _ # r \<Rightarrow> split_on c r)"
  unfolding split_on_def using split_where_first [of "\<lambda>x. x = c" s] by simp

lemma index_split_on_0: "index (split_on c s) 0 = Inr (takeWhile (\<lambda>x. x \<noteq> c) s)"
  by (simp add: index_def split_on_first [of c s])

lemma index_split_on_1:
  "index (split_on c s) 1 =
     (case dropWhile (\<lambda>x. x \<noteq> c) s of
        [] \<Rightarrow> Inl IndexError
      | _ # r \<Rightarrow> Inr (takeWhile (\<lambda>x. x \<noteq> c) r))"
proof (cases "dropWhile (\<lambda>x. x \<noteq> c) s")
  case Nil
  show ?thesis
    by (simp add: index_def split_on_first [of c s] Nil)
next
  case (Cons y r)
  show ?thesis
    by (simp add: index_def split_on_first [of c s] split_on_first [of c r] Cons)
qed

lemma index_split_on_Suc0:
  "index (split_on c s) (Suc 0) =
     (case dropWhile (\<lambda>x. x \<noteq> c) s of
        [] \<Rightarrow> Inl IndexError
      | _ # r \<Rightarrow> Inr (takeWhile (\<lambda>x. x \<noteq> c) r))"
  using index_split_on_1 [of c s] by simp

lemma takeWhile_neq_sep:
  "c \<notin> set a \<Longrightarrow> takeWhile (\<lambda>x. x \<noteq> c) (a @ c # b) = a"
  by (induction a) auto

lemma dropWhile_neq_sep:
  "c \<notin> set a \<Longrightarrow> dropWhile (\<lambda>x. x \<noteq> c) (a @ c # b) = c # b"
  by (induction a) auto

lemma takeWhile_neq_all:
  "c \<notin> set a \<Longrightarrow> takeWhile (\<lambda>x. x \<noteq> c) a = a"
  by (induction a) auto

lemma dropWhile_neq_mem:
  "c \<in> set s \<Longrightarrow> \<exists>r. dropWhile (\<lambda>x. x \<noteq> c) s = c # r \<and> set r \<subseteq> set s"
  by (induction s) auto

lemma split_ws_True: "index (split_ws ''True'') 0 = Inr ''True''"
  by (simp add: split_ws_def index_def isspace_def)

lemma lower_True: "lower ''True'' = ''true''"
  by code_simp

text \<open>
  The locals for an argument \<^verbatim>\<open>profile.name\<close> without \<^verbatim>\<open>=\<close>: the \<^verbatim>\<open>IndexError\<close> of
  \<^verbatim>\<open>option.split('=')[1]\<close> is caught and \<^verbatim>\<open>value\<close> is the string \<^verbatim>\<open>True\<close>, and the three
  locals are those of the argument with \<^verbatim>\<open>=True\<close> appended.
\<close>

lemma cluster_option_args_default_True:
  assumes noeq: "CHR ''='' \<notin> set option" and dot: "CHR ''.'' \<in> set option"
  shows "cluster_option_args option =
           Inr (takeWhile (\<lambda>x. x \<noteq> CHR ''.'') (tl (dropWhile (\<lambda>x. x \<noteq> CHR ''.'') option)),
                ''True'', takeWhile (\<lambda>x. x \<noteq> CHR ''.'') option)
         \<and> cluster_option_args (option @ ''=True'') = cluster_option_args option"
proof -
  obtain r where r: "dropWhile (\<lambda>x. x \<noteq> CHR ''.'') option = CHR ''.'' # r"
    and rset: "set r \<subseteq> set option"
    using dropWhile_neq_mem [OF dot] by blast
  from rset have noeq_r: "CHR ''='' \<notin> set r" using noeq by blast
  let ?nm = "takeWhile (\<lambda>x. x \<noteq> CHR ''.'') r"
  let ?cl = "takeWhile (\<lambda>x. x \<noteq> CHR ''.'') option"
  have nm_noeq: "CHR ''='' \<notin> set ?nm"
    using noeq_r by (meson set_takeWhileD)
  have tw_nm: "takeWhile (\<lambda>x. x \<noteq> CHR ''='') ?nm = ?nm"
    by (rule takeWhile_neq_all [OF nm_noeq])
  have dw_eq: "dropWhile (\<lambda>x. x \<noteq> CHR ''='') option = []"
    using noeq by (auto simp: dropWhile_eq_Nil_conv)
  have p1: "cluster_option_args option = Inr (?nm, ''True'', ?cl)"
    by (simp add: cluster_option_args_def index_split_on_0 index_split_on_1
        index_split_on_Suc0 r tw_nm dw_eq)
  have dw2: "dropWhile (\<lambda>x. x \<noteq> CHR ''.'') (option @ ''=True'') = CHR ''.'' # (r @ ''=True'')"
    using dot r by (simp add: dropWhile_append1)
  have tw2: "takeWhile (\<lambda>x. x \<noteq> CHR ''.'') (option @ ''=True'') = ?cl"
    using dot by (simp add: takeWhile_append1)
  have nm2: "takeWhile (\<lambda>x. x \<noteq> CHR ''='') (takeWhile (\<lambda>x. x \<noteq> CHR ''.'') (r @ ''=True''))
               = ?nm"
  proof (cases "CHR ''.'' \<in> set r")
    case True
    then show ?thesis using tw_nm by (simp add: takeWhile_append1)
  next
    case False
    have a: "takeWhile (\<lambda>x. x \<noteq> CHR ''.'') r = r"
      by (rule takeWhile_neq_all [OF False])
    have "CHR ''.'' \<notin> set (r @ ''=True'')"
      using False by simp
    hence b: "takeWhile (\<lambda>x. x \<noteq> CHR ''.'') (r @ ''=True'') = r @ ''=True''"
      by (rule takeWhile_neq_all)
    have c: "takeWhile (\<lambda>x. x \<noteq> CHR ''='') (r @ ''=True'') = r"
      using takeWhile_neq_sep [OF noeq_r, of "''True''"] by simp
    show ?thesis unfolding a b c ..
  qed
  have dweq2: "dropWhile (\<lambda>x. x \<noteq> CHR ''='') (option @ ''=True'') = ''=True''"
    using dropWhile_neq_sep [OF noeq, of "''True''"] by simp
  have p2: "cluster_option_args (option @ ''=True'') = Inr (?nm, ''True'', ?cl)"
    by (simp add: cluster_option_args_def index_split_on_0 index_split_on_1
        index_split_on_Suc0 dw2 tw2 nm2 dweq2 split_ws_True)
  show ?thesis using p1 p2 r by simp
qed

text \<open>No argument gets past the call of \<^verbatim>\<open>ClusterOption\<close>: a non-empty list of arguments
  raises \<^verbatim>\<open>NameError\<close>, or \<^verbatim>\<open>IndexError\<close> when its first argument has no dot.\<close>

lemma parse_cluster_option_raises:
  "parse_cluster_option option =
     (if CHR ''.'' \<in> set option then Inl NameError else Inl IndexError)"
proof (cases "CHR ''.'' \<in> set option")
  case True
  obtain r where d: "dropWhile (\<lambda>x. x \<noteq> CHR ''.'') option = CHR ''.'' # r"
    using dropWhile_neq_mem [OF True] by blast
  have "\<exists>args. cluster_option_args option = Inr args"
    by (simp add: cluster_option_args_def index_split_on_0 index_split_on_Suc0
        index_split_on_1 d Let_def)
  then show ?thesis using True by (auto simp: parse_cluster_option_def)
next
  case False
  then have d: "dropWhile (\<lambda>x. x \<noteq> CHR ''.'') option = []"
    by (auto simp: dropWhile_eq_Nil_conv)
  have "cluster_option_args option = Inl IndexError"
    by (simp add: cluster_option_args_def index_split_on_0 index_split_on_Suc0
        index_split_on_1 d)
  then show ?thesis using False by (simp add: parse_cluster_option_def)
qed

lemma parse_cluster_options_raises:
  "parse_cluster_options (option # rest) =
     (if CHR ''.'' \<in> set option then Inl NameError else Inl IndexError)"
  by (simp add: parse_cluster_option_raises)

lemma init_checks_raises:
  "init_checks rc clusters nodes (option # rest) =
     (if CHR ''.'' \<in> set option then Inl NameError else Inl IndexError)"
  unfolding init_checks_def Let_def parse_cluster_options_raises by simp

lemma init_checks_returns:
  "init_checks rc clusters nodes cluster_options = Inr r \<Longrightarrow> cluster_options = []"
  by (cases cluster_options) (auto simp: init_checks_raises split: if_splits)

text \<open>
  Claim C10 says that an argument \<^verbatim>\<open>profile.name\<close> without \<^verbatim>\<open>=\<close> is parsed to an option
  with the raw value \<^verbatim>\<open>True\<close>. For \<^verbatim>\<open>-c ovirt.no-database\<close> the local \<^verbatim>\<open>value\<close> is indeed
  \<^verbatim>\<open>True\<close>, but the next statement calls the unbound name \<^verbatim>\<open>ClusterOption\<close>: parsing ends
  in \<^verbatim>\<open>NameError\<close> and no option is built.
\<close>

theorem parse_cluster_options_default_NameError:
  "cluster_option_args ''ovirt.no-database'' = Inr (''no-database'', ''True'', ''ovirt'')
   \<and> parse_cluster_options [''ovirt.no-database''] = Inl NameError"
proof
  show "cluster_option_args ''ovirt.no-database'' = Inr (''no-database'', ''True'', ''ovirt'')"
    by (simp add: cluster_option_args_def split_on_def index_def)
  show "parse_cluster_options [''ovirt.no-database''] = Inl NameError"
    unfolding parse_cluster_options_raises by simp
qed




lemma scan_options_iff:
  "scan_options n m os = (m \<or> n \<in> name ` set os)"
  by (induction os arbitrary: m) auto

lemma scan_clusters_iff:
  "scan_clusters n m cs = (m \<or> (\<exists>c \<in> set cs. n \<in> name ` set (options (snd c))))"
  by (induction cs arbitrary: m) (auto simp: scan_options_iff)

lemma scan_cluster_options_last:
  "opts \<noteq> [] \<Longrightarrow>
   scan_cluster_options clusters m opts = scan_clusters (name (last opts)) False clusters"
  by (induction opts arbitrary: m) auto

text \<open>In \<^verbatim>\<open>verify_cluster_options\<close> the test of \<^verbatim>\<open>match\<close> stands after the loop over the
  options, so only the last option decides; an unknown name followed by a known one
  would pass.\<close>

lemma verify_cluster_options_last:
  "opts \<noteq> [] \<Longrightarrow>
   verify_cluster_options clusters opts =
     (if \<exists>c \<in> set clusters. name (last opts) \<in> name ` set (options (snd c))
      then Inr () else Inl (SysExit 1))"
  by (simp add: verify_cluster_options_def scan_cluster_options_last scan_clusters_iff)

lemma verify_cluster_options_unknown_not_last:
  "verify_cluster_options
     [(''ovirt'', \<lparr>cls = (0::nat), enabled = True,
         options = [\<lparr>name = ''no-database'', val = PyBool False, opt_type = TBool,
                     cluster = ''ovirt''\<rparr>]\<rparr>)]
     [\<lparr>name = ''bogus'', val = PyStr ''1'', opt_type = TStr, cluster = ''ovirt''\<rparr>,
      \<lparr>name = ''no-database'', val = PyStr ''on'', opt_type = TStr, cluster = ''ovirt''\<rparr>]
   = Inr ()"
  by (simp add: verify_cluster_options_def)


section \<open>Properties of the agent command line\<close>

lemma flag_path_prefix: "prefix cmd0 (snd (flag_path opts cmd0))"
  by (simp add: flag_path_def Let_def)

text \<open>The shell reads \<open>quote s\<close> back as the one word \<open>s\<close>, whatever \<open>s\<close> holds.\<close>

lemma safe_char_literal:
  "safe_char c \<Longrightarrow> c \<noteq> CHR 0x27 \<and> c \<noteq> CHR 0x22 \<and> \<not> sh_special c"
  by (auto simp: safe_char_def sh_special_def)

lemma sh_word_safe: "list_all safe_char s \<Longrightarrow> sh_word Unquoted s = Some s"
  by (induction s) (auto dest: safe_char_literal)

lemma sh_word_replace_squote:
  "sh_word InSingle (replace_squote s @ [CHR 0x27]) = Some s"
  by (induction s) auto

lemma sh_word_quote: "sh_word Unquoted (quote s) = Some s"
  by (simp add: quote_def sh_word_safe sh_word_replace_squote)

text \<open>
  Claim C7. Whatever the options, \<^verbatim>\<open>self.sos_cmd\<close> starts with \<^verbatim>\<open>sosreport --batch\<close>. A non-empty
  override without any of \<^verbatim>\<open>& | > < ;\<close> gives exactly that literal, a space and the quoted
  override, with no other flag, and the call returns \<^verbatim>\<open>True\<close>; what follows the literal and
  the space is one shell word that the shell reads back as the override, character for
  character. An override with one of these characters is dropped with one warning, and
  command and outcome are those of the call without an override, that is of the per-flag
  path.
\<close>

theorem configure_sos_cmd_spec:
  "prefix ''sosreport --batch'' (sos_cmd (configure_sos_cmd opts))
   \<and> (truthy (sos_opt_line opts) \<and> set (sos_opt_line opts) \<inter> set ''&|><;'' = {} \<longrightarrow>
        configure_sos_cmd opts =
          \<lparr>outcome = Inr True,
           sos_cmd = ''sosreport --batch '' @ quote (sos_opt_line opts),
           opt_line_after = sos_opt_line opts, warnings = []\<rparr>
        \<and> take 18 (sos_cmd (configure_sos_cmd opts)) = ''sosreport --batch ''
        \<and> sh_word Unquoted (drop 18 (sos_cmd (configure_sos_cmd opts)))
            = Some (sos_opt_line opts))
   \<and> (truthy (sos_opt_line opts) \<and> set (sos_opt_line opts) \<inter> set ''&|><;'' \<noteq> {} \<longrightarrow>
        configure_sos_cmd opts =
          (configure_sos_cmd (opts\<lparr>sos_opt_line := []\<rparr>))
            \<lparr>warnings := [shell_warning]\<rparr>)"
proof (intro conjI impI)
  show "prefix ''sosreport --batch'' (sos_cmd (configure_sos_cmd opts))"
    using flag_path_prefix [of "''sosreport --batch''" opts]
    by (auto simp: configure_sos_cmd_def Let_def split: prod.splits)
next
  assume a: "truthy (sos_opt_line opts) \<and> set (sos_opt_line opts) \<inter> set ''&|><;'' = {}"
  then show r: "configure_sos_cmd opts =
          \<lparr>outcome = Inr True,
           sos_cmd = ''sosreport --batch '' @ quote (sos_opt_line opts),
           opt_line_after = sos_opt_line opts, warnings = []\<rparr>"
    by (auto simp: configure_sos_cmd_def Let_def list_ex_iff)
  show "take 18 (sos_cmd (configure_sos_cmd opts)) = ''sosreport --batch ''"
    unfolding r by simp
  show "sh_word Unquoted (drop 18 (sos_cmd (configure_sos_cmd opts)))
          = Some (sos_opt_line opts)"
    unfolding r by (simp add: sh_word_quote)
next
  assume a: "truthy (sos_opt_line opts) \<and> set (sos_opt_line opts) \<inter> set ''&|><;'' \<noteq> {}"
  have f: "flag_path (opts\<lparr>sos_opt_line := []\<rparr>) c = flag_path opts c" for c
    by (simp add: flag_path_def)
  from a show "configure_sos_cmd opts =
          (configure_sos_cmd (opts\<lparr>sos_opt_line := []\<rparr>))
            \<lparr>warnings := [shell_warning]\<rparr>"
    by (auto simp: configure_sos_cmd_def Let_def list_ex_iff f truthy_def split: prod.splits)
qed

theorem configure_sos_cmd_spec_witness:
  "configure_sos_cmd
     \<lparr>sos_opt_line = ''-k a='' @ CHR 0x27 # ''b c'' @ [CHR 0x27], case_id = ''123'',
      alloptions = True, all_logs = False, verify = False, log_size = 0, sysroot = [],
      chroot = ''auto'', compression = ''auto''\<rparr>
   = \<lparr>outcome = Inr True,
      sos_cmd = ''sosreport --batch '' @ CHR 0x27 # ''-k a=''
                  @ [CHR 0x27, CHR 0x22, CHR 0x27, CHR 0x22, CHR 0x27] @ ''b c''
                  @ [CHR 0x27, CHR 0x22, CHR 0x27, CHR 0x22, CHR 0x27] @ [CHR 0x27],
      opt_line_after = ''-k a='' @ CHR 0x27 # ''b c'' @ [CHR 0x27], warnings = []\<rparr>
   \<and> sh_word Unquoted
        (CHR 0x27 # ''-k a='' @ [CHR 0x27, CHR 0x22, CHR 0x27, CHR 0x22, CHR 0x27] @ ''b c''
           @ [CHR 0x27, CHR 0x22, CHR 0x27, CHR 0x22, CHR 0x27] @ [CHR 0x27])
      = Some (''-k a='' @ CHR 0x27 # ''b c'' @ [CHR 0x27])
   \<and> configure_sos_cmd
     \<lparr>sos_opt_line = ''-o kernel; reboot'', case_id = ''123'', alloptions = True,
      all_logs = False, verify = False, log_size = 0, sysroot = [], chroot = ''auto'',
      compression = ''auto''\<rparr>
   = \<lparr>outcome = Inr False,
      sos_cmd = ''sosreport --batch --case-id=123 --alloptions -c auto -z auto'',
      opt_line_after = [], warnings = [shell_warning]\<rparr>"
proof -
  let ?line = "''-k a='' @ CHR 0x27 # ''b c'' @ [CHR 0x27]"
  let ?o1 = "\<lparr>sos_opt_line = ?line, case_id = ''123'', alloptions = True,
      all_logs = False, verify = False, log_size = 0, sysroot = [], chroot = ''auto'',
      compression = ''auto''\<rparr>"
  let ?o2 = "\<lparr>sos_opt_line = ''-o kernel; reboot'', case_id = ''123'', alloptions = True,
      all_logs = False, verify = False, log_size = 0, sysroot = [], chroot = ''auto'',
      compression = ''auto''\<rparr>"
  have a1: "truthy (sos_opt_line ?o1) \<and> set (sos_opt_line ?o1) \<inter> set ''&|><;'' = {}"
    by (simp add: truthy_def)
  have a2: "truthy (sos_opt_line ?o2) \<and> set (sos_opt_line ?o2) \<inter> set ''&|><;'' \<noteq> {}"
    by (simp add: truthy_def)
  have q: "quote ?line = CHR 0x27 # ''-k a=''
                  @ [CHR 0x27, CHR 0x22, CHR 0x27, CHR 0x22, CHR 0x27] @ ''b c''
                  @ [CHR 0x27, CHR 0x22, CHR 0x27, CHR 0x22, CHR 0x27] @ [CHR 0x27]"
    by (simp add: quote_def safe_char_def)
  have r1: "configure_sos_cmd ?o1 =
      \<lparr>outcome = Inr True, sos_cmd = ''sosreport --batch '' @ quote (sos_opt_line ?o1),
       opt_line_after = sos_opt_line ?o1, warnings = []\<rparr>"
    and w1: "sh_word Unquoted (drop 18 (sos_cmd (configure_sos_cmd ?o1)))
              = Some (sos_opt_line ?o1)"
    using configure_sos_cmd_spec [of ?o1] a1 by blast+
  have r2: "configure_sos_cmd ?o2 =
      (configure_sos_cmd (?o2\<lparr>sos_opt_line := []\<rparr>))\<lparr>warnings := [shell_warning]\<rparr>"
    using configure_sos_cmd_spec [of ?o2] a2 by blast
  have e2: "configure_sos_cmd (?o2\<lparr>sos_opt_line := []\<rparr>) =
      \<lparr>outcome = Inr False,
       sos_cmd = ''sosreport --batch --case-id=123 --alloptions -c auto -z auto'',
       opt_line_after = [], warnings = []\<rparr>"
    by (simp add: configure_sos_cmd_def flag_path_def truthy_def quote_def safe_char_def)
  from w1 have w: "sh_word Unquoted (quote ?line) = Some ?line"
    unfolding r1 by simp
  show ?thesis
    using w q unfolding r1 r2 e2 by simp
qed

section \<open>Properties of the archive\<close>

subsection \<open>Matching by derivatives\<close>

lemma matches_Nothing: "matches Nothing s = False"
  by (induction s) auto

lemma matches_Empty: "matches Empty s = (s = [])"
  by (cases s) (auto simp: matches_Nothing)

lemma matches_Alt: "matches (Alt r t) s = (matches r s \<or> matches t s)"
  by (induction s arbitrary: r t) auto

lemma matches_Seq_nullable:
  "nullable r \<Longrightarrow> matches t s \<Longrightarrow> matches (Seq r t) s"
  by (cases s) (auto simp: matches_Alt)

lemma matches_Seq_append:
  "matches r s1 \<Longrightarrow> matches t s2 \<Longrightarrow> matches (Seq r t) (s1 @ s2)"
proof (induction s1 arbitrary: r)
  case Nil
  then show ?case by (simp add: matches_Seq_nullable)
next
  case (Cons c s1)
  from Cons.prems have "matches (Seq (deriv c r) t) (s1 @ s2)"
    by (intro Cons.IH) auto
  then show ?case by (simp add: matches_Alt)
qed

lemma matches_Class: "c \<in> set cs \<Longrightarrow> matches (Class cs) [c]"
  by simp

lemma matches_lit: "matches (lit s) s"
proof (induction s)
  case Nil
  show ?case by simp
next
  case (Cons c s)
  have "matches (Seq (Class [c]) (lit s)) ([c] @ s)"
    by (rule matches_Seq_append) (simp_all add: Cons.IH)
  then show ?case by simp
qed

lemma matches_Star_Class: "set s \<subseteq> set cs \<Longrightarrow> matches (Star (Class cs)) s"
proof (induction s)
  case Nil
  show ?case by simp
next
  case (Cons c s)
  then have "matches (Star (Class cs)) s" by simp
  then have "matches (Seq Empty (Star (Class cs))) s"
    by (simp add: matches_Seq_nullable)
  with Cons.prems show ?case by simp
qed

lemma matches_plus_Class:
  assumes "s \<noteq> []" and "set s \<subseteq> set cs"
  shows "matches (rplus (Class cs)) s"
proof -
  from assms obtain c s' where s: "s = [c] @ s'" by (cases s) auto
  with assms have "c \<in> set cs" and "set s' \<subseteq> set cs" by auto
  then have "matches (Seq (Class cs) (Star (Class cs))) ([c] @ s')"
    by (intro matches_Seq_append matches_Class matches_Star_Class)
  then show ?thesis by (simp add: rplus_def s)
qed

lemma matches_times_Class:
  "length s = n \<Longrightarrow> set s \<subseteq> set cs \<Longrightarrow> matches (rtimes n (Class cs)) s"
proof (induction n arbitrary: s)
  case 0
  then show ?case by simp
next
  case (Suc n)
  then obtain c s' where s: "s = [c] @ s'" by (cases s) auto
  with Suc.prems have "c \<in> set cs" and "length s' = n" and "set s' \<subseteq> set cs" by auto
  then have "matches (Seq (Class cs) (rtimes n (Class cs))) ([c] @ s')"
    by (intro matches_Seq_append matches_Class Suc.IH)
  then show ?case by (simp add: s)
qed

lemma matches_opt_empty: "matches (ropt r) []"
  by (simp add: ropt_def)

lemma matches_opt: "matches r s \<Longrightarrow> matches (ropt r) s"
  by (simp add: ropt_def matches_Alt)

lemma matches_dash_word:
  assumes "set w \<subseteq> set word_chars"
  shows "matches (ropt (Seq (lit ''-'') (rplus (Class word_chars))))
           (if truthy w then ''-'' @ w else [])"
proof (cases "truthy w")
  case True
  then have "w \<noteq> []" by (simp add: truthy_def)
  then have "matches (Seq (lit ''-'') (rplus (Class word_chars))) (''-'' @ w)"
    using assms by (intro matches_Seq_append matches_lit matches_plus_Class)
  then have "matches (ropt (Seq (lit ''-'') (rplus (Class word_chars)))) (''-'' @ w)"
    by (rule matches_opt)
  then show ?thesis by (simp only: True if_True)
next
  case False
  show ?thesis by (simp only: False if_False matches_opt_empty)
qed

subsection \<open>Name, path and assembly\<close>

lemma digit_char_digits: "digit_char n \<in> set digits"
proof -
  have "n mod 10 < length ''0123456789''" by simp
  then have "''0123456789'' ! (n mod 10) \<in> set ''0123456789''" by (rule nth_mem)
  then show ?thesis by (simp only: digit_char_def digits_def)
qed

lemma matches_dec2: "matches (rtimes 2 (Class digits)) (dec2 n)"
  by (rule matches_times_Class) (simp_all add: dec2_def digit_char_digits)

lemma matches_dec4: "matches (rtimes 4 (Class digits)) (dec4 n)"
  by (rule matches_times_Class) (simp_all add: dec4_def digit_char_digits)

lemma random_choice_lowercase: "random_choice ascii_lowercase r \<in> set ascii_lowercase"
proof -
  have "r mod length ascii_lowercase < length ascii_lowercase"
    by (simp add: ascii_lowercase_def)
  then show ?thesis unfolding random_choice_def by (rule nth_mem)
qed

lemma matches_rand:
  "matches (rtimes 5 (Class ascii_lowercase))
     (map (\<lambda>x. random_choice ascii_lowercase (f x)) [0..<5])"
  by (rule matches_times_Class) (auto simp: random_choice_lowercase)

lemma get_archive_name_parts:
  "get_archive_name env =
     ''sos-collector'' @ (if truthy (label env) then ''-'' @ label env else [])
       @ (if truthy (case_number env) then ''-'' @ case_number env else [])
       @ ''-'' @ dec4 (year env) @ ''-'' @ dec2 (month env) @ ''-'' @ dec2 (day env) @ ''-''
       @ map (\<lambda>x. random_choice ascii_lowercase (rng env x)) [0..<5]"
  by (simp add: get_archive_name_def strftime_ymd_def Let_def)

text \<open>
  Claim C8, as the code has it. The root name is \<^verbatim>\<open>sos-collector\<close>, then \<^verbatim>\<open>-LABEL\<close> when a
  label is set, then \<^verbatim>\<open>-CASE\<close> when a case id is set, then the date and five letters drawn
  from the lowercase alphabet (\<open>get_archive_name_parts\<close>). Label and case id are copied as
  they are, so the name matches the pattern whenever both consist of letters, digits,
  \<^verbatim>\<open>_\<close> and \<^verbatim>\<open>-\<close> only.
\<close>

theorem archive_name_matches:
  assumes "set (label env) \<subseteq> set word_chars"
    and "set (case_number env) \<subseteq> set word_chars"
    and "1000 \<le> year env \<and> year env \<le> 9999"
    and "1 \<le> month env \<and> month env \<le> 12"
    and "1 \<le> day env \<and> day env \<le> 31"
  shows "matches archive_name_re (get_archive_name env)"
  unfolding archive_name_re_def get_archive_name_parts
  by (intro matches_Seq_append matches_lit matches_dash_word matches_dec2 matches_dec4
      matches_rand assms)


theorem archive_name_matches_witness:
  "matches archive_name_re
     (get_archive_name
        \<lparr>tmpdir = ''/var/tmp/sos.x1'', label = ''prod_db'', case_number = ''01234567'',
         year = 2024, month = 1, day = 15, rng = (\<lambda>k. 3 * k + 30),
         sos_log_file = ''/var/tmp/sos.x1/sos.log'', sos_ui_log_file = ''/var/tmp/sos.x1/ui.log'',
         open_ok = (\<lambda>p. True), add_ok = (\<lambda>p. True)\<rparr>)
   \<and> get_archive_name
        \<lparr>tmpdir = ''/var/tmp/sos.x1'', label = ''prod_db'', case_number = ''01234567'',
         year = 2024, month = 1, day = 15, rng = (\<lambda>k. 3 * k + 30),
         sos_log_file = ''/var/tmp/sos.x1/sos.log'', sos_ui_log_file = ''/var/tmp/sos.x1/ui.log'',
         open_ok = (\<lambda>p. True), add_ok = (\<lambda>p. True)\<rparr>
     = ''sos-collector-prod_db-01234567-2024-01-15-ehknq''"
proof -
  let ?env = "\<lparr>tmpdir = ''/var/tmp/sos.x1'', label = ''prod_db'', case_number = ''01234567'',
         year = 2024, month = 1, day = 15, rng = (\<lambda>k. 3 * k + 30),
         sos_log_file = ''/var/tmp/sos.x1/sos.log'', sos_ui_log_file = ''/var/tmp/sos.x1/ui.log'',
         open_ok = (\<lambda>p. True), add_ok = (\<lambda>p. True)\<rparr>"
  have h1: "set (label ?env) \<subseteq> set word_chars" by (simp add: word_chars_def)
  have h2: "set (case_number ?env) \<subseteq> set word_chars" by (simp add: word_chars_def)
  have h3: "1000 \<le> year ?env \<and> year ?env \<le> 9999" by simp
  have h4: "1 \<le> month ?env \<and> month ?env \<le> 12" by simp
  have h5: "1 \<le> day ?env \<and> day ?env \<le> 31" by simp
  have n: "get_archive_name ?env = ''sos-collector-prod_db-01234567-2024-01-15-ehknq''"
    by (simp add: get_archive_name_def truthy_def strftime_ymd_def dec4_def dec2_def
        digit_char_def random_choice_def ascii_lowercase_def upt_rec)
  from archive_name_matches [OF h1 h2 h3 h4 h5] n show ?thesis by simp
qed

text \<open>With the label \<^verbatim>\<open>prod.db\<close> the name does not match the pattern.\<close>

theorem archive_name_label_counterexample:
  "get_archive_name
        \<lparr>tmpdir = ''/var/tmp/sos.x1'', label = ''prod.db'', case_number = [],
         year = 2024, month = 1, day = 15, rng = (\<lambda>k. k),
         sos_log_file = ''/var/tmp/sos.x1/sos.log'', sos_ui_log_file = ''/var/tmp/sos.x1/ui.log'',
         open_ok = (\<lambda>p. True), add_ok = (\<lambda>p. True)\<rparr>
     = ''sos-collector-prod.db-2024-01-15-abcde''
   \<and> \<not> matches archive_name_re ''sos-collector-prod.db-2024-01-15-abcde''"
proof
  show "get_archive_name
        \<lparr>tmpdir = ''/var/tmp/sos.x1'', label = ''prod.db'', case_number = [],
         year = 2024, month = 1, day = 15, rng = (\<lambda>k. k),
         sos_log_file = ''/var/tmp/sos.x1/sos.log'', sos_ui_log_file = ''/var/tmp/sos.x1/ui.log'',
         open_ok = (\<lambda>p. True), add_ok = (\<lambda>p. True)\<rparr>
     = ''sos-collector-prod.db-2024-01-15-abcde''"
    by (simp add: get_archive_name_def truthy_def strftime_ymd_def dec4_def dec2_def
        digit_char_def random_choice_def ascii_lowercase_def upt_rec)
  show "\<not> matches archive_name_re ''sos-collector-prod.db-2024-01-15-abcde''"
    by code_simp
qed

lemma get_archive_path_concat:
  "get_archive_path env = tmpdir env @ get_archive_name env @ ''.tar.gz''"
  by (simp add: get_archive_path_def)

text \<open>
  Claim C9 asks for a path separator between the temporary directory and the file name.
  \<^verbatim>\<open>_get_archive_path\<close> concatenates the two with nothing in between
  (\<open>get_archive_path_concat\<close>): for the directory \<^verbatim>\<open>/var/tmp/sos.x1\<close> the archive is a
  sibling of the directory, not a file inside it.
\<close>

theorem get_archive_path_no_separator:
  "get_archive_path
        \<lparr>tmpdir = ''/var/tmp/sos.x1'', label = [], case_number = [],
         year = 2024, month = 1, day = 15, rng = (\<lambda>k. k),
         sos_log_file = ''/var/tmp/sos.x1/sos.log'', sos_ui_log_file = ''/var/tmp/sos.x1/ui.log'',
         open_ok = (\<lambda>p. True), add_ok = (\<lambda>p. True)\<rparr>
     = ''/var/tmp/sos.x1sos-collector-2024-01-15-abcde.tar.gz''"
  by (simp add: get_archive_path_def get_archive_name_def truthy_def strftime_ymd_def dec4_def
      dec2_def digit_char_def random_choice_def ascii_lowercase_def upt_rec)




section \<open>Properties of cluster detection and of the node list\<close>

lemma determine_loop_skip:
  "distinct (pre @ checks) \<Longrightarrow> \<forall>p\<in>set pre. \<not> enabled (snd p) \<Longrightarrow>
   determine_loop issub (pre @ rest) (pre @ checks) = determine_loop issub rest checks"
  by (induction pre) auto

lemma determine_loop_hit:
  "B \<notin> set post \<Longrightarrow> enabled (snd B) \<Longrightarrow>
   determine_loop issub (B # post) (B # post) = Some (layered issub B post)"
  by simp

lemma layered_first:
  "\<forall>r\<in>set mid. \<not> (issub (cls (snd r)) (cls (snd B)) \<and> enabled (snd r)) \<Longrightarrow>
   issub (cls (snd D)) (cls (snd B)) \<Longrightarrow> enabled (snd D) \<Longrightarrow>
   layered issub B (mid @ D # rest) = D"
  by (induction mid) auto

lemma layered_none:
  "\<forall>r\<in>set post. \<not> (issub (cls (snd r)) (cls (snd B)) \<and> enabled (snd r)) \<Longrightarrow>
   layered issub B post = B"
  by (induction post) auto

text \<open>
  Claim C2, as the code has it. The profiles are tried in load order. The first profile
  \<open>B\<close> whose check matches ends the search; the profile selected is the first profile
  \<open>D\<close> after \<open>B\<close> in load order whose class is a subclass of the class of \<open>B\<close> and whose
  check matches, and \<open>B\<close> itself when there is none.
\<close>

theorem determine_cluster_first_match:
  assumes keys: "distinct (map fst clusters)"
    and split: "clusters = pre @ B # post"
    and pre: "\<forall>p\<in>set pre. \<not> enabled (snd p)"
    and B: "enabled (snd B)"
  shows "determine_cluster issub clusters = Some (layered issub B post)
         \<and> (\<forall>mid D rest.
               post = mid @ D # rest
               \<and> (\<forall>r\<in>set mid. \<not> (issub (cls (snd r)) (cls (snd B)) \<and> enabled (snd r)))
               \<and> issub (cls (snd D)) (cls (snd B)) \<and> enabled (snd D)
               \<longrightarrow> determine_cluster issub clusters = Some D)
         \<and> ((\<forall>r\<in>set post. \<not> (issub (cls (snd r)) (cls (snd B)) \<and> enabled (snd r)))
               \<longrightarrow> determine_cluster issub clusters = Some B)"
proof -
  from keys have d: "distinct clusters" by (rule distinct_map [THEN iffD1, THEN conjunct1])
  with split have d1: "distinct (pre @ B # post)" and d2: "B \<notin> set post" by auto
  have "determine_cluster issub clusters = determine_loop issub (B # post) (B # post)"
    unfolding determine_cluster_def split by (rule determine_loop_skip [OF d1 pre])
  also have "\<dots> = Some (layered issub B post)"
    by (rule determine_loop_hit [OF d2 B])
  finally have sel: "determine_cluster issub clusters = Some (layered issub B post)" .
  show ?thesis
    unfolding sel by (auto simp: layered_first layered_none)
qed

theorem determine_cluster_first_match_witness:
  "determine_cluster chain_issub
     ((''none'', \<lparr>cls = 7, enabled = False, options = []\<rparr>) # chain_clusters)
   = Some (''layer1'', \<lparr>cls = 1, enabled = True, options = []\<rparr>)"
proof -
  let ?n = "(''none'', \<lparr>cls = 7::nat, enabled = False, options = []\<rparr>)"
  let ?B = "(''base'', \<lparr>cls = 0::nat, enabled = True, options = []\<rparr>)"
  let ?D = "(''layer1'', \<lparr>cls = 1::nat, enabled = True, options = []\<rparr>)"
  let ?E = "(''layer2'', \<lparr>cls = 2::nat, enabled = True, options = []\<rparr>)"
  have k: "distinct (map fst (?n # chain_clusters))" by (simp add: chain_clusters_def)
  have s: "?n # chain_clusters = [?n] @ ?B # [?D, ?E]" by (simp add: chain_clusters_def)
  have p: "\<forall>p\<in>set [?n]. \<not> enabled (snd p)" by simp
  have b: "enabled (snd ?B)" by simp
  have m: "[?D, ?E] = [] @ ?D # [?E]
           \<and> (\<forall>r\<in>set []. \<not> (chain_issub (cls (snd r)) (cls (snd ?B)) \<and> enabled (snd r)))
           \<and> chain_issub (cls (snd ?D)) (cls (snd ?B)) \<and> enabled (snd ?D)"
    by (simp add: chain_issub_def)
  from determine_cluster_first_match [OF k s p b, of chain_issub] m
  show ?thesis by blast
qed

text \<open>
  Three matching profiles, each derived from the one before: \<^verbatim>\<open>layer1\<close> and \<^verbatim>\<open>layer2\<close> are
  a matching base and a matching derived profile, and the profile selected is \<^verbatim>\<open>layer1\<close>.
\<close>

theorem determine_cluster_chain_counterexample:
  "(''layer1'', \<lparr>cls = 1, enabled = True, options = []\<rparr>) \<in> set chain_clusters
   \<and> (''layer2'', \<lparr>cls = 2, enabled = True, options = []\<rparr>) \<in> set chain_clusters
   \<and> chain_issub 2 1
   \<and> determine_cluster chain_issub chain_clusters
       = Some (''layer1'', \<lparr>cls = 1, enabled = True, options = []\<rparr>)
   \<and> determine_cluster chain_issub chain_clusters
       \<noteq> Some (''layer2'', \<lparr>cls = 2, enabled = True, options = []\<rparr>)"
  by (simp add: chain_clusters_def chain_issub_def determine_cluster_def)

lemma reduce_node_list_distinct:
  "distinct (reduce_node_list st) \<and> [] \<notin> set (reduce_node_list st)"
  by (simp add: reduce_node_list_def Let_def)

text \<open>
  Claim C6. The list \<^verbatim>\<open>reduce_node_list\<close> leaves has no duplicates and no empty string
  (\<open>reduce_node_list_distinct\<close>). The primary is removed by a loop that deletes from the
  list it iterates over, so the entry after a deleted one is skipped: when the cluster
  lists the primary \<^verbatim>\<open>ctl1\<close> twice, one \<^verbatim>\<open>ctl1\<close> stays in the final list.
\<close>

theorem reduce_node_list_keeps_primary:
  "reduce_node_list
     \<lparr>node_list = [''ctl1'', ''ctl1'', ''node2''], hostname = ''driver'',
      ip_addrs = [''192.168.0.2''], no_local = True, master_hostname = Some ''ctl1'',
      opts_master = ''ctl1''\<rparr>
   = [''ctl1'', ''node2'']"
  by code_simp

section \<open>Properties of the tokenizer of node strings\<close>

lemma slice_middle: "slice (a @ seg @ r) (length a) (length a + length seg) = seg"
  by (simp add: slice_def)

text \<open>The loop over the comma positions computes \<open>tokens_from\<close>; \<^verbatim>\<open>pos\<close> always ends
  at \<^verbatim>\<open>len(node)\<close>, so the final \<^verbatim>\<open>if pos != len(node)\<close> never appends anything.\<close>

lemma scan_idxs_tokens:
  "snd (scan_idxs rc (a @ seg @ rest)
     (map fst (filter (\<lambda>(i, m). m = CHR '','') (enumerate (length a + length seg) rest))
        @ [length a + length seg + length rest])
     (length a, pos, nodes))
   = (length a + length seg + length rest, nodes @ tokens_from rc seg rest)"
proof (induction rest arbitrary: a seg pos nodes)
  case Nil
  have "slice (a @ seg) (length a) (length a + length seg) = seg"
    using slice_middle [of a seg "[]"] by simp
  then show ?case by (simp add: Let_def)
next
  case (Cons c cs)
  have reg: "slice (a @ seg @ c # cs) (length a) (length a + length seg) = seg"
    by (rule slice_middle)
  show ?case
  proof (cases "c = CHR '',''")
    case False
    from Cons.IH [of a "seg @ [c]" pos nodes] False show ?thesis
      by simp
  next
    case True
    show ?thesis
    proof (cases "rc seg \<and> \<not> open_class seg")
      case ok: True
      from Cons.IH [of "a @ seg" "[c]" "length a + length seg"
          "nodes @ [lstrip CHR '','' seg]"] True ok reg
      show ?thesis by (simp add: Let_def)
    next
      case bad: False
      from Cons.IH [of a "seg @ [c]" "length a + length seg" nodes] True bad reg
      show ?thesis by (simp add: Let_def)
    qed
  qed
qed

lemma parse_node_string_tokens:
  "parse_node_string rc nodes node = nodes @ tokens_from rc [] node"
proof -
  obtain s p t where r: "scan_idxs rc node (comma_idxs node) (0, 0, nodes) = (s, p, t)"
    by (cases "scan_idxs rc node (comma_idxs node) (0, 0, nodes)")
  from scan_idxs_tokens [of rc "[]" "[]" node 0 nodes] r
  have "p = length node" and "t = nodes @ tokens_from rc [] node"
    by (simp_all add: comma_idxs_def)
  with r show ?thesis by (simp add: parse_node_string_def)
qed

lemma foldl_parse_node_string:
  "foldl (parse_node_string rc) acc ns = acc @ concat (map (tokens_from rc []) ns)"
  by (induction ns arbitrary: acc) (simp_all add: parse_node_string_tokens)

lemma parse_node_strings_tokens:
  "parse_node_strings rc ns = concat (map (tokens_from rc []) ns)"
  by (simp add: parse_node_strings_def foldl_parse_node_string)


lemma lstrip_no_comma: "CHR '','' \<notin> set w \<Longrightarrow> lstrip CHR '','' w = w"
  by (cases w) (auto simp: lstrip_def)

lemma lstrip_not_leading: "w = [] \<or> hd w \<noteq> CHR '','' \<Longrightarrow> lstrip CHR '','' w = w"
  by (cases w) (auto simp: lstrip_def)

lemma lstrip_comma_Cons: "lstrip CHR '','' (CHR '','' # w) = lstrip CHR '','' w"
  by (simp add: lstrip_def)

lemma set_lstrip: "c \<noteq> CHR '','' \<Longrightarrow> (c \<in> set (lstrip CHR '','' s)) = (c \<in> set s)"
  by (induction s) (auto simp: lstrip_def)

lemma open_class_lstrip: "open_class (lstrip CHR '','' s) = open_class s"
  by (simp add: open_class_def set_lstrip)

lemma open_class_comma_Cons: "open_class (CHR '','' # s) = open_class s"
  by (simp add: open_class_def)

lemma tokens_from_closed:
  "t \<in> set (tokens_from rc seg rest) \<Longrightarrow> \<not> open_class t"
  by (induction rest arbitrary: seg) (auto simp: open_class_lstrip split: if_splits)

lemma tokens_from_skip:
  "(\<And>p. prefix (p @ '','') x \<Longrightarrow> open_class (seg @ p)) \<Longrightarrow>
   tokens_from rc seg (x @ rest) = tokens_from rc (seg @ x) rest"
proof (induction x arbitrary: seg)
  case Nil
  show ?case by simp
next
  case (Cons c xs)
  have step: "open_class ((seg @ [c]) @ p)" if "prefix (p @ '','') xs" for p
    using Cons.prems [of "c # p"] that by simp
  have rec: "tokens_from rc (seg @ [c]) (xs @ rest) = tokens_from rc ((seg @ [c]) @ xs) rest"
    by (rule Cons.IH) (rule step)
  show ?case
  proof (cases "c = CHR '',''")
    case True
    with Cons.prems [of "[]"] have "open_class seg" by simp
    with True rec show ?thesis by simp
  next
    case False
    with rec show ?thesis by simp
  qed
qed

lemma tokens_from_leading_comma:
  "tokens_from (\<lambda>r. True) (CHR '','' # seg) rest = tokens_from (\<lambda>r. True) seg rest"
  by (induction rest arbitrary: seg) (simp_all add: open_class_comma_Cons lstrip_comma_Cons)

lemma tokens_from_first:
  assumes closed: "\<not> open_class tok"
    and shorter: "\<And>p. prefix (p @ '','') tok \<Longrightarrow> open_class p"
  shows "tokens_from (\<lambda>r. True) [] tok = [tok]"
    and "tokens_from (\<lambda>r. True) [] (tok @ CHR '','' # rest)
           = tok # tokens_from (\<lambda>r. True) [] rest"
proof -
  have lead: "tok = [] \<or> hd tok \<noteq> CHR '',''"
  proof (cases tok)
    case Nil
    then show ?thesis by simp
  next
    case (Cons c cs)
    show ?thesis
    proof (rule ccontr)
      assume "\<not> ?thesis"
      with Cons have "prefix ([] @ '','') tok" by simp
      from shorter [OF this] show False by (simp add: open_class_def)
    qed
  qed
  have strip: "lstrip CHR '','' tok = tok" by (rule lstrip_not_leading [OF lead])
  have skip: "tokens_from (\<lambda>r. True) [] (tok @ r) = tokens_from (\<lambda>r. True) ([] @ tok) r" for r
    by (rule tokens_from_skip) (simp add: shorter)
  from skip [of "[]"] show "tokens_from (\<lambda>r. True) [] tok = [tok]"
    by (simp add: closed strip)
  from skip [of "CHR '','' # rest"]
  show "tokens_from (\<lambda>r. True) [] (tok @ CHR '','' # rest)
          = tok # tokens_from (\<lambda>r. True) [] rest"
    by (simp add: closed strip tokens_from_leading_comma)
qed

lemma tokens_from_no_class:
  "CHR ''['' \<notin> set seg \<Longrightarrow> CHR ''['' \<notin> set rest \<Longrightarrow>
    \<exists>w ws. split_on CHR '','' rest = w # ws \<and> CHR '','' \<notin> set w
       \<and> tokens_from (\<lambda>r. True) seg rest = lstrip CHR '','' (seg @ w) # ws"
proof (induction rest arbitrary: seg)
  case Nil
  then show ?case by (simp add: split_on_def open_class_def)
next
  case (Cons c cs)
  show ?case
  proof (cases "c = CHR '',''")
    case True
    from Cons.IH [of "'',''"] Cons.prems obtain w ws where
      s: "split_on CHR '','' cs = w # ws" and w: "CHR '','' \<notin> set w"
      and t: "tokens_from (\<lambda>r. True) '','' cs = lstrip CHR '','' ('','' @ w) # ws"
      by auto
    from w have "lstrip CHR '','' ('','' @ w) = w"
      by (simp add: lstrip_comma_Cons lstrip_no_comma)
    with s t True Cons.prems show ?thesis
      by (simp add: split_on_def open_class_def)
  next
    case False
    from Cons.IH [of "seg @ [c]"] Cons.prems obtain w ws where
      s: "split_on CHR '','' cs = w # ws" and w: "CHR '','' \<notin> set w"
      and t: "tokens_from (\<lambda>r. True) (seg @ [c]) cs = lstrip CHR '','' ((seg @ [c]) @ w) # ws"
      by auto
    with False show ?thesis by (simp add: split_on_def)
  qed
qed

lemma parse_node_strings_closed:
  "t \<in> set (parse_node_strings rc ns) \<Longrightarrow> CHR ''['' \<in> set t \<Longrightarrow> CHR '']'' \<in> set t"
  using tokens_from_closed [of t rc "[]"]
  by (auto simp: parse_node_strings_tokens open_class_def)

lemma parse_node_strings_no_class:
  assumes "\<forall>r. rc r" and "CHR ''['' \<notin> set node"
  shows "parse_node_strings rc [node] = split_on CHR '','' node"
proof -
  from assms(1) have rceq: "rc = (\<lambda>r. True)" by auto
  from tokens_from_no_class [of "[]" node] assms(2) obtain w ws where
    "split_on CHR '','' node = w # ws" and "CHR '','' \<notin> set w"
    and "tokens_from (\<lambda>r. True) [] node = lstrip CHR '','' ([] @ w) # ws" by auto
  then show ?thesis unfolding rceq by (simp add: parse_node_strings_tokens lstrip_no_comma)
qed

text \<open>A last segment that opens a class and never closes it is not appended at all.\<close>

lemma parse_node_strings_open_tail:
  "parse_node_strings (\<lambda>r. True) [''a,[b''] = [''a'']"
  by (simp add: parse_node_strings_tokens open_class_def lstrip_def)

text \<open>
  What the loop does when a token closes. The compile check is applied to the escaped
  segment and never rejects (\<open>\<forall>r. rc r\<close>). The test for an open class looks at the segment
  since the last split, not at the whole prefix, and asks only whether it has a \<^verbatim>\<open>[\<close>
  and no \<^verbatim>\<open>]\<close>. So the first token \<open>tok\<close> of a node string is its shortest part, ending
  at a comma or at the end of the string, that is not such an open class, and the rest of
  the string after the comma is tokenized the same way.
\<close>

lemma parse_node_strings_first_token:
  assumes rc: "\<forall>r. rc r"
    and closed: "\<not> open_class tok"
    and shorter: "\<forall>p. prefix (p @ '','') tok \<longrightarrow> open_class p"
  shows "parse_node_strings rc [tok] = [tok]
       \<and> parse_node_strings rc [tok @ '','' @ rest] = tok # parse_node_strings rc [rest]
       \<and> parse_node_strings rc [''web-[0-3],db-[0-1]''] = [''web-[0-3]'', ''db-[0-1]'']
       \<and> parse_node_strings rc [] = []"
proof -
  from rc have rceq: "rc = (\<lambda>r. True)" by auto
  from shorter have sh: "\<And>p. prefix (p @ '','') tok \<Longrightarrow> open_class p" by simp
  have a: "parse_node_strings (\<lambda>r. True) [tok] = [tok]"
    by (simp add: parse_node_strings_tokens tokens_from_first(1) [OF closed sh])
  have b: "parse_node_strings (\<lambda>r. True) [tok @ '','' @ rest]
             = tok # parse_node_strings (\<lambda>r. True) [rest]"
    using tokens_from_first(2) [OF closed sh, of rest]
    by (simp add: parse_node_strings_tokens)
  have c: "parse_node_strings (\<lambda>r. True) [''web-[0-3],db-[0-1]''] = [''web-[0-3]'', ''db-[0-1]'']"
    by (simp add: parse_node_strings_tokens open_class_def lstrip_def)
  have d: "parse_node_strings (\<lambda>r. True) [] = []"
    by (simp add: parse_node_strings_def)
  from a b c d show ?thesis unfolding rceq by simp
qed


lemma parse_node_strings_first_token_example:
  "parse_node_strings (\<lambda>r. True) [''db-[0,1],web-[0-3]'']
     = ''db-[0,1]'' # parse_node_strings (\<lambda>r. True) [''web-[0-3]'']
   \<and> parse_node_strings (\<lambda>r. True) [''db-[0,1]''] = [''db-[0,1]'']"
proof -
  have h1: "\<forall>r::string. (\<lambda>r. True) r" by simp
  have h2: "\<not> open_class ''db-[0,1]''" by (simp add: open_class_def)
  have h3: "\<forall>p. prefix (p @ '','') ''db-[0,1]'' \<longrightarrow> open_class p"
    by (auto simp: prefix_Cons append_eq_Cons_conv open_class_def)
  from parse_node_strings_first_token [OF h1 h2 h3, of "''web-[0-3]''"]
  show ?thesis by simp
qed

lemma parse_node_strings_empty_string:
  "parse_node_strings (\<lambda>r. True) [] = [] \<and> parse_node_strings (\<lambda>r. True) [] = []"
  by (simp add: parse_node_strings_tokens open_class_def lstrip_def)

lemma parse_node_strings_spec_example:
  "parse_node_strings (\<lambda>r. True) [''web-[0-3],db-[0-1]''] = [''web-[0-3]'', ''db-[0-1]'']"
  by (simp add: parse_node_strings_tokens open_class_def lstrip_def)

text \<open>
  Claim C1 says that a comma is a separator only when the prefix up to it has no
  unbalanced bracket, and stays in the token otherwise. In \<^verbatim>\<open>web-[0-3][a,b]\<close> the prefix
  up to the comma has an unclosed \<^verbatim>\<open>[\<close>: the comma is inside the class \<^verbatim>\<open>[a,b]\<close>, and the
  specification's tokenizer keeps the string whole. The collector splits there, because
  the segment also holds the \<^verbatim>\<open>]\<close> of the earlier class \<^verbatim>\<open>[0-3]\<close>.
\<close>

theorem parse_node_strings_splits_inside_class:
  "parse_node_strings (\<lambda>r. True) [''web-[0-3][a,b]''] = [''web-[0-3][a'', ''b]'']
   \<and> bracket_depth 0 ''web-[0-3][a'' = 1
   \<and> spec_tokenize (\<lambda>r. True) ''web-[0-3][a,b]'' = [''web-[0-3][a,b]'']"
  by (simp add: parse_node_strings_tokens open_class_def lstrip_def spec_tokenize_def
      spec_separator_def)

end

